theory Spec2Isabelle
  imports Complex_Main "HOL-Library.Word"
begin

section \<open>JavaScript values used by the socket route\<close>

text \<open>
  A JavaScript string is a sequence of UTF-16 code units; \<open>slice\<close> and \<open>length\<close> count
  code units. String literals of the source are written \<open>lit ''...''\<close>.
\<close>

type_synonym js_string = "16 word list"

definition lit :: "string \<Rightarrow> js_string" where
  "lit s = map of_char s"

text \<open>
  \<open>String.prototype.trim\<close> removes WhiteSpace and LineTerminator code units from both ends:
  TAB, LF, VT, FF, CR, SP, NBSP, U+1680, U+2000..U+200A, U+2028, U+2029, U+202F, U+205F,
  U+3000 and U+FEFF.
\<close>

definition is_ws :: "16 word \<Rightarrow> bool" where
  "is_ws c \<longleftrightarrow>
     c = 0x9 \<or> c = 0xA \<or> c = 0xB \<or> c = 0xC \<or> c = 0xD \<or> c = 0x20 \<or> c = 0xA0 \<or>
     c = 0x1680 \<or> (0x2000 \<le> c \<and> c \<le> 0x200A) \<or> c = 0x2028 \<or> c = 0x2029 \<or>
     c = 0x202F \<or> c = 0x205F \<or> c = 0x3000 \<or> c = 0xFEFF"

definition trim :: "js_string \<Rightarrow> js_string" where
  "trim s = rev (dropWhile is_ws (rev (dropWhile is_ws s)))"

text \<open>
  The values \<open>JSON.parse\<close> can return, which are also the values the route serialises.
  \<open>JObj\<close> lists an object's own properties; \<open>undefined\<close> is \<open>None\<close> of \<open>jsval option\<close>.
  A JSON number is carried by its value; the route only tests numbers for truthiness
  and writes the registry size.
\<close>

datatype jsval =
    JNull
  | JBool bool
  | JNum rat
  | JStr js_string
  | JArr "jsval list"
  | JObj "(js_string \<times> jsval) list"

datatype error = TypeError

text \<open>
  Reading a property \<open>v.k\<close> for the keys the route reads (\<open>type\<close>, \<open>text\<close>, \<open>alias\<close>,
  \<open>color\<close>): \<open>null\<close> raises a TypeError, an object yields its own property or
  \<open>undefined\<close>, every other value (boolean, number, string, array) yields \<open>undefined\<close>.
\<close>

fun get_prop :: "jsval \<Rightarrow> js_string \<Rightarrow> error + jsval option" where
  "get_prop JNull k = Inl TypeError"
| "get_prop (JObj kvs) k = Inr (map_of kvs k)"
| "get_prop (JBool b) k = Inr None"
| "get_prop (JNum n) k = Inr None"
| "get_prop (JStr s) k = Inr None"
| "get_prop (JArr xs) k = Inr None"

text \<open>JavaScript truthiness, as tested by \<open>!x\<close> and \<open>x || y\<close>.\<close>

fun truthy :: "jsval option \<Rightarrow> bool" where
  "truthy None = False"
| "truthy (Some JNull) = False"
| "truthy (Some (JBool b)) = b"
| "truthy (Some (JNum n)) = (n \<noteq> 0)"
| "truthy (Some (JStr s)) = (s \<noteq> [])"
| "truthy (Some (JArr xs)) = True"
| "truthy (Some (JObj kvs)) = True"

text \<open>\<open>v.trim()\<close>: only a string has the method; on any other value the call raises.\<close>

fun call_trim :: "jsval option \<Rightarrow> error + js_string" where
  "call_trim (Some (JStr s)) = Inr (trim s)"
| "call_trim v = Inl TypeError"

text \<open>
  \<open>v?.slice(0, n)\<close>: \<open>undefined\<close> for \<open>undefined\<close> and \<open>null\<close>; strings and arrays have
  \<open>slice\<close>; on a boolean, a number or an object the call raises.
\<close>

fun opt_slice :: "jsval option \<Rightarrow> nat \<Rightarrow> error + jsval option" where
  "opt_slice None n = Inr None"
| "opt_slice (Some JNull) n = Inr None"
| "opt_slice (Some (JStr s)) n = Inr (Some (JStr (take n s)))"
| "opt_slice (Some (JArr xs)) n = Inr (Some (JArr (take n xs)))"
| "opt_slice (Some (JBool b)) n = Inl TypeError"
| "opt_slice (Some (JNum r)) n = Inl TypeError"
| "opt_slice (Some (JObj kvs)) n = Inl TypeError"

text \<open>\<open>a || b\<close>.\<close>

definition or_else :: "jsval option \<Rightarrow> jsval \<Rightarrow> jsval" where
  "or_else a b = (case a of None \<Rightarrow> b | Some v \<Rightarrow> if truthy (Some v) then v else b)"

section \<open>Data model of the route\<close>

record ChatMessage =
  m_id :: js_string
  m_text :: js_string
  m_alias :: jsval
  m_color :: jsval
  m_sentAt :: js_string

record Connection =
  c_id :: js_string
  c_socket :: nat

text \<open>A ChatMessage as the object that \<open>JSON.stringify\<close> receives.\<close>

definition message_obj :: "ChatMessage \<Rightarrow> jsval" where
  "message_obj m = JObj
     [(lit ''id'', JStr (m_id m)), (lit ''text'', JStr (m_text m)), (lit ''alias'', m_alias m),
      (lit ''color'', m_color m), (lit ''sentAt'', JStr (m_sentAt m))]"

text \<open>
  The module state. \<open>connections\<close> is the \<open>Map\<close>, kept in insertion order as a \<open>Map\<close>
  iterates. Arrays are objects on a heap: \<open>arrays\<close> holds every array allocated so far,
  an address is an index into it, and the variable \<open>history\<close> holds the address of the
  current array.
\<close>

record state =
  connections :: "(js_string \<times> Connection) list"
  arrays :: "ChatMessage list list"
  history :: nat

definition init :: state where
  "init = \<lparr>connections = [], arrays = [[]], history = 0\<rparr>"

definition history_list :: "state \<Rightarrow> ChatMessage list" where
  "history_list s = arrays s ! history s"

text \<open>\<open>Map.set\<close> keeps the position of a key that is present and appends a new one.\<close>

fun map_set :: "('k \<times> 'v) list \<Rightarrow> 'k \<Rightarrow> 'v \<Rightarrow> ('k \<times> 'v) list" where
  "map_set [] k v = [(k, v)]"
| "map_set (p # m) k v = (if fst p = k then (k, v) # m else p # map_set m k v)"

definition map_delete :: "('k \<times> 'v) list \<Rightarrow> 'k \<Rightarrow> ('k \<times> 'v) list" where
  "map_delete m k = filter (\<lambda>p. fst p \<noteq> k) m"

definition map_values :: "('k \<times> 'v) list \<Rightarrow> 'v list" where
  "map_values m = map snd m"

text \<open>
  What the platform supplies: \<open>JSON.parse\<close> (\<open>None\<close> when it raises a SyntaxError),
  \<open>JSON.stringify\<close>, and whether \<open>socket.send(payload)\<close> raises on a given socket.
\<close>

record env =
  JSON_parse :: "js_string \<Rightarrow> jsval option"
  JSON_stringify :: "jsval \<Rightarrow> js_string"
  send_throws :: "nat \<Rightarrow> js_string \<Rightarrow> bool"

text \<open>
  The operations a handler performs on the shared registry, the sockets and the console,
  in program order.
\<close>

datatype action =
    Stringify jsval
  | Sent nat js_string
  | SendThrew nat js_string
  | ConsoleError string
  | Register js_string
  | Deregister js_string
  | Uncaught error

section \<open>broadcast, registerPresence, pruneHistory\<close>

text \<open>\<open>options?.exclude && connection.id === options.exclude\<close>\<close>

definition excluded :: "js_string option \<Rightarrow> Connection \<Rightarrow> bool" where
  "excluded exclude connection =
     (case exclude of None \<Rightarrow> False | Some e \<Rightarrow> e \<noteq> [] \<and> c_id connection = e)"

text \<open>\<open>try { connection.socket.send(payload) } catch (error) { console.error(msg, error) }\<close>\<close>

definition try_send :: "env \<Rightarrow> nat \<Rightarrow> js_string \<Rightarrow> string \<Rightarrow> action list" where
  "try_send e sock payload msg =
     (if send_throws e sock payload then [SendThrew sock payload, ConsoleError msg]
      else [Sent sock payload])"

fun broadcast_loop :: "env \<Rightarrow> js_string \<Rightarrow> js_string option \<Rightarrow> Connection list \<Rightarrow> action list" where
  "broadcast_loop e payload exclude [] = []"
| "broadcast_loop e payload exclude (connection # rest) =
     (if excluded exclude connection then broadcast_loop e payload exclude rest
      else try_send e (c_socket connection) payload ''Broadcast failed''
           @ broadcast_loop e payload exclude rest)"

definition broadcast :: "env \<Rightarrow> jsval \<Rightarrow> js_string option \<Rightarrow> state \<Rightarrow> action list" where
  "broadcast e data exclude s =
     Stringify data
     # broadcast_loop e (JSON_stringify e data) exclude (map_values (connections s))"

definition presence_event :: "nat \<Rightarrow> jsval" where
  "presence_event n = JObj [(lit ''type'', JStr (lit ''presence'')), (lit ''count'', JNum (of_nat n))]"

definition registerPresence :: "env \<Rightarrow> state \<Rightarrow> action list" where
  "registerPresence e s = broadcast e (presence_event (length (connections s))) None s"

text \<open>\<open>history.slice(-200)\<close> allocates a new array holding the last 200 elements.\<close>

definition pruneHistory :: "state \<Rightarrow> state" where
  "pruneHistory s =
     (if length (history_list s) > 200
      then s\<lparr>arrays := arrays s @ [drop (length (history_list s) - 200) (history_list s)],
             history := length (arrays s)\<rparr>
      else s)"

section \<open>GET: accepting a connection\<close>

record request =
  upgrade :: "js_string option"

datatype response = Response nat

definition history_event :: "ChatMessage list \<Rightarrow> jsval" where
  "history_event ms =
     JObj [(lit ''type'', JStr (lit ''history'')), (lit ''messages'', JArr (map message_obj ms))]"

text \<open>
  \<open>uuid\<close> is what \<open>crypto.randomUUID()\<close> returns and \<open>server\<close> the server end of the new
  \<open>WebSocketPair\<close>. \<open>!request.headers.get("upgrade")\<close> holds for a missing and for an
  empty header.
\<close>

definition GET :: "env \<Rightarrow> request \<Rightarrow> js_string \<Rightarrow> nat \<Rightarrow> state \<Rightarrow> response \<times> state \<times> action list" where
  "GET e req uuid server s =
     (if upgrade req = None \<or> upgrade req = Some [] then (Response 426, s, [])
      else
        let connection = \<lparr>c_id = uuid, c_socket = server\<rparr>;
            s1 = s\<lparr>connections := map_set (connections s) uuid connection\<rparr>;
            data = history_event (history_list s1)
        in (Response 101, s1,
            Register uuid
            # Stringify data
            # try_send e server (JSON_stringify e data) ''Failed to send history''
            @ registerPresence e s1))"

section \<open>The message listener\<close>

datatype ws_data = Text js_string | Binary

definition message_event :: "ChatMessage \<Rightarrow> jsval" where
  "message_event m = JObj [(lit ''type'', JStr (lit ''message'')), (lit ''message'', message_obj m)]"

text \<open>
  Lines 78 to 105: validation of the inbound data and construction of the ChatMessage.
  \<open>Inl\<close> is an exception leaving the listener, \<open>Inr ([], None)\<close> a silent return,
  \<open>Inr (logged, None)\<close> a return after \<open>console.error\<close>, \<open>Inr ([], Some m)\<close> an accepted
  message. \<open>uuid\<close> and \<open>now\<close> are the results of \<open>crypto.randomUUID()\<close> and
  \<open>new Date().toISOString()\<close>.
\<close>

definition build_message ::
  "env \<Rightarrow> ws_data \<Rightarrow> js_string \<Rightarrow> js_string \<Rightarrow> error + (action list \<times> ChatMessage option)" where
  "build_message e ev uuid now =
     (case ev of
        Binary \<Rightarrow> Inr ([], None)
      | Text d \<Rightarrow>
         (case JSON_parse e d of
            None \<Rightarrow> Inr ([ConsoleError ''Invalid payload''], None)
          | Some data \<Rightarrow>
             (case get_prop data (lit ''type'') of
                Inl err \<Rightarrow> Inl err
              | Inr ty \<Rightarrow>
                 if ty \<noteq> Some (JStr (lit ''message'')) then Inr ([], None)
                 else
                  (case get_prop data (lit ''text'') of
                     Inl err \<Rightarrow> Inl err
                   | Inr tx \<Rightarrow>
                      if \<not> truthy tx then Inr ([], None)
                      else
                       (case call_trim tx of
                          Inl err \<Rightarrow> Inl err
                        | Inr trimmed \<Rightarrow>
                           if trimmed = [] then Inr ([], None)
                           else
                            (case get_prop data (lit ''alias'') of
                               Inl err \<Rightarrow> Inl err
                             | Inr al \<Rightarrow>
                                (case opt_slice al 48 of
                                   Inl err \<Rightarrow> Inl err
                                 | Inr al' \<Rightarrow>
                                    (case get_prop data (lit ''color'') of
                                       Inl err \<Rightarrow> Inl err
                                     | Inr co \<Rightarrow>
                                        (case opt_slice co 64 of
                                           Inl err \<Rightarrow> Inl err
                                         | Inr co' \<Rightarrow>
                                            Inr ([], Some
                                              \<lparr>m_id = uuid,
                                               m_text = take 480 trimmed,
                                               m_alias = or_else al' (JStr (lit ''Anonymous'')),
                                               m_color = or_else co' (JStr (lit ''bg-slate-100 text-slate-900'')),
                                               m_sentAt = now\<rparr>))))))))))"

text \<open>\<open>history = [...history, message]\<close> allocates a new array and rebinds the variable.\<close>

definition append_history :: "ChatMessage \<Rightarrow> state \<Rightarrow> state" where
  "append_history m s =
     s\<lparr>arrays := arrays s @ [history_list s @ [m]], history := length (arrays s)\<rparr>"

definition onMessage ::
  "env \<Rightarrow> ws_data \<Rightarrow> js_string \<Rightarrow> js_string \<Rightarrow> state \<Rightarrow> error + (state \<times> action list)" where
  "onMessage e ev uuid now s =
     (case build_message e ev uuid now of
        Inl err \<Rightarrow> Inl err
      | Inr (logged, None) \<Rightarrow> Inr (s, logged)
      | Inr (logged, Some message) \<Rightarrow>
          let s1 = pruneHistory (append_history message s)
          in Inr (s1, logged @ broadcast e (message_event message) None s1))"

section \<open>cleanup: the close and error listener\<close>

definition cleanup :: "env \<Rightarrow> js_string \<Rightarrow> state \<Rightarrow> state \<times> action list" where
  "cleanup e connectionId s =
     (let s1 = s\<lparr>connections := map_delete (connections s) connectionId\<rparr>
      in (s1, Deregister connectionId # registerPresence e s1))"

section \<open>Runs of the server\<close>

text \<open>
  An event is one invocation of \<open>GET\<close> or of a listener, with what the platform supplied
  to it. An exception leaving a listener is reported and leaves the state as it was.
\<close>

datatype event =
    Connect request js_string nat
  | Inbound ws_data js_string js_string
  | Close js_string
  | Error js_string

definition step :: "env \<Rightarrow> state \<Rightarrow> event \<Rightarrow> state \<times> action list" where
  "step e s ev =
     (case ev of
        Connect req uuid server \<Rightarrow> snd (GET e req uuid server s)
      | Inbound d uuid now \<Rightarrow>
          (case onMessage e d uuid now s of Inl err \<Rightarrow> (s, [Uncaught err]) | Inr r \<Rightarrow> r)
      | Close cid \<Rightarrow> cleanup e cid s
      | Error cid \<Rightarrow> cleanup e cid s)"

fun run :: "state \<Rightarrow> (env \<times> event) list \<Rightarrow> state \<times> action list" where
  "run s [] = (s, [])"
| "run s ((e, ev) # evs) =
     (let (s1, out1) = step e s ev; (s2, out2) = run s1 evs in (s2, out1 @ out2))"

text \<open>The ChatMessages a run appends to the store, in order.\<close>

fun appended :: "(env \<times> event) list \<Rightarrow> ChatMessage list" where
  "appended [] = []"
| "appended ((e, Inbound d uuid now) # evs) =
     (case build_message e d uuid now of
        Inr (logged, Some m) \<Rightarrow> m # appended evs
      | _ \<Rightarrow> appended evs)"
| "appended (_ # evs) = appended evs"

section \<open>Notions used to state the properties\<close>

text \<open>
  One guarded send per connection of a list, in order, all with the same payload: a send
  that raises is followed by the console error and the next connection is still tried.
\<close>

definition attempts :: "env \<Rightarrow> js_string \<Rightarrow> Connection list \<Rightarrow> action list" where
  "attempts e payload cs =
     concat (map (\<lambda>c. try_send e (c_socket c) payload ''Broadcast failed'') cs)"

fun is_Stringify :: "action \<Rightarrow> bool" where
  "is_Stringify (Stringify v) = True"
| "is_Stringify a = False"

fun is_Uncaught :: "action \<Rightarrow> bool" where
  "is_Uncaught (Uncaught err) = True"
| "is_Uncaught a = False"

text \<open>The calls of \<open>socket.send\<close> in a trace: socket and payload, whether or not the call raised.\<close>

fun send_calls :: "action list \<Rightarrow> (nat \<times> js_string) list" where
  "send_calls [] = []"
| "send_calls (Sent k p # as) = (k, p) # send_calls as"
| "send_calls (SendThrew k p # as) = (k, p) # send_calls as"
| "send_calls (a # as) = send_calls as"

text \<open>The values handed to \<open>JSON.stringify\<close> in a trace.\<close>

fun stringified :: "action list \<Rightarrow> jsval list" where
  "stringified [] = []"
| "stringified (Stringify v # as) = v # stringified as"
| "stringified (a # as) = stringified as"

text \<open>The \<open>type\<close> field of an object, when it is a string.\<close>

definition event_type :: "jsval \<Rightarrow> js_string option" where
  "event_type v =
     (case v of
        JObj kvs \<Rightarrow> (case map_of kvs (lit ''type'') of Some (JStr t) \<Rightarrow> Some t | _ \<Rightarrow> None)
      | _ \<Rightarrow> None)"

text \<open>Some element satisfying \<open>P\<close> occurs in the list before some element satisfying \<open>Q\<close>.\<close>

fun precedes :: "('a \<Rightarrow> bool) \<Rightarrow> ('a \<Rightarrow> bool) \<Rightarrow> 'a list \<Rightarrow> bool" where
  "precedes P Q [] = False"
| "precedes P Q (x # xs) = ((P x \<and> list_ex Q xs) \<or> precedes P Q xs)"

text \<open>The element that follows the first occurrence of \<open>a\<close>.\<close>

fun next_after :: "'a \<Rightarrow> 'a list \<Rightarrow> 'a option" where
  "next_after a [] = None"
| "next_after a [x] = None"
| "next_after a (x # y # xs) = (if x = a then Some y else next_after a (y # xs))"

text \<open>The keys of the registry.\<close>

definition registered :: "state \<Rightarrow> js_string set" where
  "registered s = fst ` set (connections s)"

text \<open>The variable \<open>history\<close> refers to an allocated array.\<close>

definition heap_ok :: "state \<Rightarrow> bool" where
  "heap_ok s \<longleftrightarrow> history s < length (arrays s)"

text \<open>An object whose \<open>type\<close> is one of the three event names of the wire protocol.\<close>

definition server_event :: "jsval \<Rightarrow> bool" where
  "server_event v \<longleftrightarrow>
     (case v of JObj kvs \<Rightarrow> True | _ \<Rightarrow> False) \<and>
     (event_type v = Some (lit ''history'') \<or> event_type v = Some (lit ''message'')
      \<or> event_type v = Some (lit ''presence''))"

text \<open>A serialised value is a presence event.\<close>

definition is_presence :: "jsval \<Rightarrow> bool" where
  "is_presence v \<longleftrightarrow> event_type v = Some (lit ''presence'')"

text \<open>The events whose handler calls \<open>connections.set\<close> or \<open>connections.delete\<close>.\<close>

fun registry_call :: "event \<Rightarrow> bool" where
  "registry_call (Connect req uuid server) = (upgrade req \<noteq> None \<and> upgrade req \<noteq> Some [])"
| "registry_call (Inbound d uuid now) = False"
| "registry_call (Close cid) = True"
| "registry_call (Error cid) = True"

text \<open>What the handler of such an event does before it calls \<open>registerPresence\<close>.\<close>

fun before_presence :: "env \<Rightarrow> state \<Rightarrow> event \<Rightarrow> action list" where
  "before_presence e s (Connect req uuid server) =
     Register uuid
     # Stringify (history_event (history_list s))
     # try_send e server (JSON_stringify e (history_event (history_list s))) ''Failed to send history''"
| "before_presence e s (Inbound d uuid now) = []"
| "before_presence e s (Close cid) = [Deregister cid]"
| "before_presence e s (Error cid) = [Deregister cid]"

text \<open>
  The accept sequence in the order the specification gives it, for comparison with \<open>GET\<close>:
  the history event is sent first, then the connection is registered, then presence is
  announced. This definition follows the specification, not the source.
\<close>

definition GET_in_specified_order ::
  "env \<Rightarrow> request \<Rightarrow> js_string \<Rightarrow> nat \<Rightarrow> state \<Rightarrow> response \<times> state \<times> action list" where
  "GET_in_specified_order e req uuid server s =
     (if upgrade req = None \<or> upgrade req = Some [] then (Response 426, s, [])
      else
        let data = history_event (history_list s);
            sent = Stringify data
                   # try_send e server (JSON_stringify e data) ''Failed to send history'';
            s1 = s\<lparr>connections := map_set (connections s) uuid \<lparr>c_id = uuid, c_socket = server\<rparr>\<rparr>
        in (Response 101, s1, sent @ Register uuid # registerPresence e s1))"

section \<open>Concrete inputs\<close>

text \<open>
  A platform whose \<open>JSON.stringify\<close> writes only the \<open>type\<close> of an event, with a given
  \<open>JSON.parse\<close> and a given set of sockets on which \<open>send\<close> raises; a registry of three
  connections; a platform on which every frame parses to a chat message saying hi, and
  the ChatMessage the listener builds from it.
\<close>

definition platform :: "(js_string \<Rightarrow> jsval option) \<Rightarrow> (nat \<Rightarrow> bool) \<Rightarrow> env" where
  "platform parse broken =
     \<lparr>JSON_parse = parse,
      JSON_stringify = (\<lambda>v. case event_type v of Some t \<Rightarrow> t | None \<Rightarrow> []),
      send_throws = (\<lambda>sock payload. broken sock)\<rparr>"

definition connection :: "string \<Rightarrow> nat \<Rightarrow> js_string \<times> Connection" where
  "connection name sock = (lit name, \<lparr>c_id = lit name, c_socket = sock\<rparr>)"

definition room :: state where
  "room = \<lparr>connections = [connection ''a'' 1, connection ''b'' 2, connection ''c'' 3],
           arrays = [[]], history = 0\<rparr>"

definition quiet :: env where
  "quiet = platform Map.empty (\<lambda>sock. False)"

definition chat :: env where
  "chat = platform
     (\<lambda>d. Some (JObj [(lit ''type'', JStr (lit ''message'')), (lit ''text'', JStr (lit ''hi''))]))
     (\<lambda>sock. False)"

definition hi :: ChatMessage where
  "hi = \<lparr>m_id = lit ''id-1'', m_text = lit ''hi'', m_alias = JStr (lit ''Anonymous''),
         m_color = JStr (lit ''bg-slate-100 text-slate-900''), m_sentAt = lit ''12:00''\<rparr>"

definition upgrade_request :: request where
  "upgrade_request = \<lparr>upgrade = Some (lit ''websocket'')\<rparr>"

text \<open>
  A serialiser that shows the whole value, for the inputs whose payload matters: a string
  is written as it is, without quotes or escapes, a number that is a natural in decimal
  and any other number as a question mark.
\<close>

fun digits :: "nat \<Rightarrow> js_string" where
  "digits n = (if n < 10 then [of_nat (48 + n)] else digits (n div 10) @ [of_nat (48 + n mod 10)])"

declare digits.simps [simp del]

fun join :: "js_string \<Rightarrow> js_string list \<Rightarrow> js_string" where
  "join sep [] = []"
| "join sep [x] = x"
| "join sep (x # y # ys) = x @ sep @ join sep (y # ys)"

fun render :: "jsval \<Rightarrow> js_string" where
  "render JNull = lit ''null''"
| "render (JBool b) = (if b then lit ''true'' else lit ''false'')"
| "render (JNum n) = (if n = of_nat (nat \<lfloor>n\<rfloor>) then digits (nat \<lfloor>n\<rfloor>) else lit ''?'')"
| "render (JStr s) = s"
| "render (JArr xs) = lit ''['' @ join (lit '','') (map render xs) @ lit '']''"
| "render (JObj kvs) =
     lit ''{'' @ join (lit '','') (map (\<lambda>p. fst p @ lit '':'' @ render (snd p)) kvs) @ lit ''}''"

definition verbose :: "env \<Rightarrow> env" where
  "verbose e = e\<lparr>JSON_stringify := render\<rparr>"




section \<open>Unfolding the handlers\<close>

lemma broadcast_loop_attempts:
  "broadcast_loop e payload exclude cs = attempts e payload (filter (\<lambda>c. \<not> excluded exclude c) cs)"
  by (induction cs) (simp_all add: attempts_def)

lemma broadcast_all:
  "broadcast e data None s =
     Stringify data # attempts e (JSON_stringify e data) (map_values (connections s))"
  by (simp add: broadcast_def broadcast_loop_attempts excluded_def)

lemma registerPresence_all:
  "registerPresence e s =
     Stringify (presence_event (length (connections s)))
     # attempts e (JSON_stringify e (presence_event (length (connections s))))
         (map_values (connections s))"
  by (simp add: registerPresence_def broadcast_all)

lemma GET_refused:
  "upgrade req = None \<or> upgrade req = Some [] \<Longrightarrow> GET e req uuid server s = (Response 426, s, [])"
  by (auto simp: GET_def)

lemma GET_accepted:
  assumes "upgrade req = Some h" and "h \<noteq> []"
  shows "GET e req uuid server s =
     (Response 101,
      s\<lparr>connections := map_set (connections s) uuid \<lparr>c_id = uuid, c_socket = server\<rparr>\<rparr>,
      Register uuid
      # Stringify (history_event (history_list s))
      # try_send e server (JSON_stringify e (history_event (history_list s))) ''Failed to send history''
      @ registerPresence e
          (s\<lparr>connections := map_set (connections s) uuid \<lparr>c_id = uuid, c_socket = server\<rparr>\<rparr>))"
  using assms by (simp add: GET_def Let_def history_list_def)

lemma cleanup_eq:
  "cleanup e cid s =
     (s\<lparr>connections := map_delete (connections s) cid\<rparr>,
      Deregister cid # registerPresence e (s\<lparr>connections := map_delete (connections s) cid\<rparr>))"
  by (simp add: cleanup_def Let_def)

lemma step_Connect_accepted:
  assumes "upgrade req = Some h" and "h \<noteq> []"
  shows "step e s (Connect req uuid server) =
     (s\<lparr>connections := map_set (connections s) uuid \<lparr>c_id = uuid, c_socket = server\<rparr>\<rparr>,
      before_presence e s (Connect req uuid server)
      @ registerPresence e
          (s\<lparr>connections := map_set (connections s) uuid \<lparr>c_id = uuid, c_socket = server\<rparr>\<rparr>))"
  by (simp add: step_def GET_accepted [OF assms])

lemma step_Connect_refused:
  "upgrade req = None \<or> upgrade req = Some [] \<Longrightarrow> step e s (Connect req uuid server) = (s, [])"
  by (simp add: step_def GET_refused)

lemma step_cleanup:
  "step e s (Close cid) = cleanup e cid s" "step e s (Error cid) = cleanup e cid s"
  by (simp_all add: step_def)

lemma run_Cons_fst: "fst (run s ((e, ev) # evs)) = fst (run (fst (step e s ev)) evs)"
  by (simp split: prod.splits)

lemma run_Cons_snd:
  "snd (run s ((e, ev) # evs)) = snd (step e s ev) @ snd (run (fst (step e s ev)) evs)"
  by (simp split: prod.splits)

lemma build_message_log:
  "build_message e d uuid now = Inr (lg, r) \<Longrightarrow> send_calls lg = [] \<and> stringified lg = []"
  by (auto simp: build_message_def split: ws_data.splits option.splits sum.splits if_splits)

lemma build_message_accept_log:
  "build_message e d uuid now = Inr (lg, Some m) \<Longrightarrow> lg = []"
  by (auto simp: build_message_def split: ws_data.splits option.splits sum.splits if_splits)

lemma connections_pruneHistory: "connections (pruneHistory s) = connections s"
  by (simp add: pruneHistory_def)

lemma connections_append_history: "connections (append_history m s) = connections s"
  by (simp add: append_history_def)

lemma onMessage_accept:
  assumes "build_message e d uuid now = Inr (lg, Some m)"
  shows "onMessage e d uuid now s =
           Inr (pruneHistory (append_history m s),
                Stringify (message_event m)
                # attempts e (JSON_stringify e (message_event m)) (map_values (connections s)))"
  using assms build_message_accept_log [OF assms]
  by (simp add: onMessage_def broadcast_all connections_pruneHistory connections_append_history)

section \<open>Traces\<close>

lemma send_calls_append: "send_calls (xs @ ys) = send_calls xs @ send_calls ys"
  by (induction xs rule: send_calls.induct) simp_all

lemma stringified_append: "stringified (xs @ ys) = stringified xs @ stringified ys"
  by (induction xs rule: stringified.induct) simp_all

lemma send_calls_try_send: "send_calls (try_send e k p msg) = [(k, p)]"
  by (simp add: try_send_def)

lemma stringified_try_send: "stringified (try_send e k p msg) = []"
  by (simp add: try_send_def)

lemma send_calls_attempts: "send_calls (attempts e p cs) = map (\<lambda>c. (c_socket c, p)) cs"
  by (induction cs) (simp_all add: attempts_def try_send_def)

lemma stringified_attempts: "stringified (attempts e p cs) = []"
  by (induction cs) (simp_all add: attempts_def try_send_def)

lemma filter_is_Stringify_attempts: "filter is_Stringify (attempts e p cs) = []"
  by (induction cs) (simp_all add: attempts_def try_send_def)

lemma filter_is_Uncaught_attempts: "filter is_Uncaught (attempts e p cs) = []"
  by (induction cs) (simp_all add: attempts_def try_send_def)

lemma stringified_broadcast: "stringified (broadcast e data exclude s) = [data]"
  by (simp add: broadcast_def broadcast_loop_attempts stringified_attempts)

lemma stringified_registerPresence:
  "stringified (registerPresence e s) = [presence_event (length (connections s))]"
  by (simp add: registerPresence_def stringified_broadcast)

lemma is_presence_simps:
  "is_presence (presence_event n)" "\<not> is_presence (history_event ms)" "\<not> is_presence (message_event m)"
  by (simp_all add: is_presence_def presence_event_def history_event_def message_event_def
      event_type_def lit_def)

section \<open>The concrete inputs, evaluated\<close>

lemma build_message_hi:
  "build_message chat (Text (lit ''frame'')) (lit ''id-1'') (lit ''12:00'') = Inr ([], Some hi)"
  by (simp add: build_message_def chat_def hi_def platform_def lit_def trim_def is_ws_def or_else_def)

lemma store_hi:
  assumes "length (history_list s) < 200"
  shows "pruneHistory (append_history hi s) = s\<lparr>arrays := arrays s @ [history_list s @ [hi]],
                                                  history := length (arrays s)\<rparr>"
  using assms by (simp add: pruneHistory_def append_history_def history_list_def)

lemma attempts_room:
  "send_throws e = (\<lambda>sock payload. False) \<Longrightarrow>
   attempts e p (map_values (connections room)) = [Sent 1 p, Sent 2 p, Sent 3 p]"
  by (simp add: attempts_def try_send_def room_def connection_def map_values_def)

lemma stringify_platform:
  "JSON_stringify (platform parse broken) (presence_event n) = lit ''presence''"
  "JSON_stringify (platform parse broken) (history_event ms) = lit ''history''"
  "JSON_stringify (platform parse broken) (message_event m) = lit ''message''"
  by (simp_all add: platform_def presence_event_def history_event_def message_event_def
      event_type_def lit_def)

lemma onMessage_hi_room:
  "onMessage chat (Text (lit ''frame'')) (lit ''id-1'') (lit ''12:00'') room =
     Inr (room\<lparr>arrays := [[], [hi]], history := 1\<rparr>,
          [Stringify (message_event hi),
           Sent 1 (lit ''message''), Sent 2 (lit ''message''), Sent 3 (lit ''message'')])"
proof -
  have "length (history_list room) < 200" by (simp add: room_def history_list_def)
  from store_hi [OF this] have s: "pruneHistory (append_history hi room) =
      room\<lparr>arrays := [[], [hi]], history := 1\<rparr>"
    by (simp add: room_def history_list_def)
  have t: "send_throws chat = (\<lambda>sock payload. False)" by (simp add: chat_def platform_def)
  show ?thesis
    unfolding onMessage_accept [OF build_message_hi] s attempts_room [OF t]
    by (simp add: chat_def stringify_platform)
qed

lemma build_message_hi_verbose:
  "build_message (verbose chat) (Text (lit ''frame'')) (lit ''id-1'') (lit ''12:00'') = Inr ([], Some hi)"
  by (simp add: build_message_def verbose_def chat_def hi_def platform_def lit_def trim_def is_ws_def
      or_else_def)

lemma render_message_hi:
  "render (message_event hi) =
     lit ''{type:message,message:{id:id-1,text:hi,alias:Anonymous,color:bg-slate-100 text-slate-900,sentAt:12:00}}''"
  by (simp add: message_event_def message_obj_def hi_def lit_def)

section \<open>The message store\<close>

lemma history_list_append_history: "history_list (append_history m s) = history_list s @ [m]"
  by (simp add: append_history_def history_list_def)

lemma history_list_pruneHistory:
  "history_list (pruneHistory s) = drop (length (history_list s) - 200) (history_list s)"
  by (simp add: pruneHistory_def history_list_def)

lemma drop_oldest_absorb:
  "drop (length (drop (length a - n) a @ b) - n) (drop (length a - n) a @ b)
   = drop (length (a @ b) - n) (a @ b)"
  by (cases "length a \<le> n") (auto simp: add.commute)

lemma history_list_GET: "history_list (fst (snd (GET e req uuid server s))) = history_list s"
  by (simp add: GET_def Let_def history_list_def)

lemma history_list_cleanup: "history_list (fst (cleanup e cid s)) = history_list s"
  by (simp add: cleanup_def Let_def history_list_def)

lemma history_list_step:
  "history_list (fst (step e s ev)) =
     drop (length (history_list s @ appended [(e, ev)]) - 200) (history_list s @ appended [(e, ev)])
   \<or> (appended [(e, ev)] = [] \<and> history_list (fst (step e s ev)) = history_list s)"
  by (cases ev)
     (auto simp: step_def onMessage_def history_list_GET history_list_cleanup Let_def
        history_list_pruneHistory history_list_append_history
        split: sum.splits option.splits prod.splits)

lemma run_history_list:
  "length (history_list s) \<le> 200 \<Longrightarrow>
   history_list (fst (run s evs)) =
     drop (length (history_list s @ appended evs) - 200) (history_list s @ appended evs)"
proof (induction evs arbitrary: s)
  case Nil
  then show ?case by simp
next
  case (Cons p evs)
  obtain e ev where p: "p = (e, ev)" by (cases p)
  let ?s1 = "fst (step e s ev)"
  have run_eq: "fst (run s (p # evs)) = fst (run ?s1 evs)"
    by (simp add: p split: prod.splits)
  have app_eq: "appended (p # evs) = appended [(e, ev)] @ appended evs"
    by (cases ev) (auto simp: p split: sum.splits option.splits prod.splits)
  from history_list_step [of e s ev] show ?case
  proof
    assume h: "history_list ?s1 =
      drop (length (history_list s @ appended [(e, ev)]) - 200) (history_list s @ appended [(e, ev)])"
    then have "length (history_list ?s1) \<le> 200" by simp
    from Cons.IH [OF this] show ?thesis
      unfolding run_eq app_eq h
      using drop_oldest_absorb [of "history_list s @ appended [(e, ev)]" 200 "appended evs"]
      by simp
  next
    assume h: "appended [(e, ev)] = [] \<and> history_list ?s1 = history_list s"
    then have "length (history_list ?s1) \<le> 200" using Cons.prems by simp
    from Cons.IH [OF this] show ?thesis
      unfolding run_eq app_eq using h by simp
  qed
qed

text \<open>
  C1. Whatever events the server handles from its initial state (connects, inbound data
  accepted or not, closes and errors, in any order and under any platform behaviour), the
  array the variable \<open>history\<close> refers to holds at most 200 messages, and they are the
  last 200 of the messages appended so far, in the order in which they were appended.
  The statement holds for every run, hence after each append-and-trim of a longer run.
\<close>

theorem C1_store_keeps_last_200:
  "history_list (fst (run init evs)) = drop (length (appended evs) - 200) (appended evs)
   \<and> length (history_list (fst (run init evs))) \<le> 200"
proof -
  have "length (history_list init) \<le> 200" by (simp add: init_def history_list_def)
  from run_history_list [OF this, of evs] show ?thesis
    by (simp add: init_def history_list_def)
qed

theorem C1_store_keeps_last_200_witness:
  "history_list (fst (run init
      [(chat, Inbound (Text (lit ''frame'')) (lit ''id-1'') (lit ''12:00'')),
       (chat, Inbound (Text (lit ''frame'')) (lit ''id-1'') (lit ''12:00''))])) = [hi, hi]"
  using C1_store_keeps_last_200
    [of "[(chat, Inbound (Text (lit ''frame'')) (lit ''id-1'') (lit ''12:00'')),
          (chat, Inbound (Text (lit ''frame'')) (lit ''id-1'') (lit ''12:00''))]"]
  by (simp add: build_message_hi)

section \<open>broadcast\<close>

lemma excluded_nonempty_id: "c_id c \<noteq> [] \<Longrightarrow> excluded exclude c \<longleftrightarrow> exclude = Some (c_id c)"
  by (auto simp: excluded_def split: option.splits)

text \<open>
  C2. In a registry whose connection ids are not empty (every id is a UUID), \<open>broadcast\<close>
  calls \<open>JSON.stringify\<close> once, on the payload, and then tries one send per registered
  connection, in registry order, leaving out exactly the connection whose id is the
  \<open>exclude\<close> option; every send carries the same serialised string. A send that raises is
  followed by the console error and the remaining connections are still tried (the
  definition of \<open>attempts\<close>), and no exception leaves \<open>broadcast\<close>.
\<close>

theorem C2_broadcast:
  assumes "\<forall>c \<in> set (map_values (connections s)). c_id c \<noteq> []"
  shows "broadcast e data exclude s =
           Stringify data
           # attempts e (JSON_stringify e data)
               (filter (\<lambda>c. Some (c_id c) \<noteq> exclude) (map_values (connections s)))
         \<and> filter is_Stringify (broadcast e data exclude s) = [Stringify data]
         \<and> send_calls (broadcast e data exclude s) =
             map (\<lambda>c. (c_socket c, JSON_stringify e data))
               (filter (\<lambda>c. Some (c_id c) \<noteq> exclude) (map_values (connections s)))
         \<and> filter is_Uncaught (broadcast e data exclude s) = []"
proof -
  have "filter (\<lambda>c. \<not> excluded exclude c) (map_values (connections s))
        = filter (\<lambda>c. Some (c_id c) \<noteq> exclude) (map_values (connections s))"
    using assms by (intro filter_cong) (auto simp: excluded_nonempty_id)
  then have eq: "broadcast e data exclude s =
           Stringify data
           # attempts e (JSON_stringify e data)
               (filter (\<lambda>c. Some (c_id c) \<noteq> exclude) (map_values (connections s)))"
    by (simp add: broadcast_def broadcast_loop_attempts)
  show ?thesis
    unfolding eq
    by (simp add: filter_is_Stringify_attempts send_calls_attempts filter_is_Uncaught_attempts)
qed

theorem C2_broadcast_witness:
  "broadcast (platform Map.empty (\<lambda>sock. sock = 2)) (presence_event 3) (Some (lit ''a'')) room =
     [Stringify (presence_event 3), SendThrew 2 (lit ''presence''),
      ConsoleError ''Broadcast failed'', Sent 3 (lit ''presence'')]
   \<and> send_calls (broadcast (platform Map.empty (\<lambda>sock. sock = 2)) (presence_event 3)
        (Some (lit ''a'')) room) = [(2, lit ''presence''), (3, lit ''presence'')]"
proof -
  have ids: "\<forall>c \<in> set (map_values (connections room)). c_id c \<noteq> []"
    by (simp add: room_def connection_def map_values_def lit_def)
  show ?thesis
    using C2_broadcast [OF ids, of "platform Map.empty (\<lambda>sock. sock = 2)" "presence_event 3"
        "Some (lit ''a'')"]
    by (simp add: room_def connection_def map_values_def lit_def attempts_def try_send_def
        platform_def presence_event_def event_type_def)
qed

section \<open>Accepted chat messages\<close>

lemma last_history_list_accept:
  "last (history_list (pruneHistory (append_history m s))) = m"
  by (simp add: history_list_pruneHistory history_list_append_history)

text \<open>
  C7. When the listener accepts an inbound chat message and builds the ChatMessage \<open>m\<close>,
  it appends \<open>m\<close> to the store and then broadcasts with no \<open>exclude\<close> option the object
  \<open>{type: "message", message: {id, text, alias, color, sentAt}}\<close> holding the five fields
  of \<open>m\<close>: that object is what is serialised, once, and one send is tried with its
  serialisation for every connection of the registry, the sender's own connection
  included whenever it is registered.
\<close>

theorem C7_message_broadcast_to_all:
  assumes "build_message e d uuid now = Inr (lg, Some m)"
  shows "\<exists>s' acts v. onMessage e d uuid now s = Inr (s', acts)
           \<and> last (history_list s') = m
           \<and> connections s' = connections s
           \<and> acts = broadcast e (message_event m) None s'
           \<and> acts = Stringify (message_event m)
                    # attempts e (JSON_stringify e (message_event m)) (map_values (connections s))
           \<and> send_calls acts =
               map (\<lambda>c. (c_socket c, JSON_stringify e (message_event m))) (map_values (connections s))
           \<and> (\<forall>c \<in> set (map_values (connections s)).
                 (c_socket c, JSON_stringify e (message_event m)) \<in> set (send_calls acts))
           \<and> v = JObj [(lit ''type'', JStr (lit ''message'')),
                        (lit ''message'',
                         JObj [(lit ''id'', JStr (m_id m)), (lit ''text'', JStr (m_text m)),
                               (lit ''alias'', m_alias m), (lit ''color'', m_color m),
                               (lit ''sentAt'', JStr (m_sentAt m))])]
           \<and> message_event m = v
           \<and> stringified acts = [v]
           \<and> send_calls acts = map (\<lambda>c. (c_socket c, JSON_stringify e v)) (map_values (connections s))"
  using onMessage_accept [OF assms, of s]
  by (simp add: last_history_list_accept connections_pruneHistory connections_append_history
      broadcast_all send_calls_attempts stringified_attempts)
     (simp add: message_event_def message_obj_def)

theorem C7_message_broadcast_to_all_witness:
  "onMessage (verbose chat) (Text (lit ''frame'')) (lit ''id-1'') (lit ''12:00'') room =
     Inr (room\<lparr>arrays := [[], [hi]], history := 1\<rparr>,
          [Stringify
             (JObj [(lit ''type'', JStr (lit ''message'')),
                    (lit ''message'',
                     JObj [(lit ''id'', JStr (lit ''id-1'')), (lit ''text'', JStr (lit ''hi'')),
                           (lit ''alias'', JStr (lit ''Anonymous'')),
                           (lit ''color'', JStr (lit ''bg-slate-100 text-slate-900'')),
                           (lit ''sentAt'', JStr (lit ''12:00''))])]),
           Sent 1 (lit ''{type:message,message:{id:id-1,text:hi,alias:Anonymous,color:bg-slate-100 text-slate-900,sentAt:12:00}}''),
           Sent 2 (lit ''{type:message,message:{id:id-1,text:hi,alias:Anonymous,color:bg-slate-100 text-slate-900,sentAt:12:00}}''),
           Sent 3 (lit ''{type:message,message:{id:id-1,text:hi,alias:Anonymous,color:bg-slate-100 text-slate-900,sentAt:12:00}}'')])"
proof -
  let ?v = "JObj [(lit ''type'', JStr (lit ''message'')),
                    (lit ''message'',
                     JObj [(lit ''id'', JStr (lit ''id-1'')), (lit ''text'', JStr (lit ''hi'')),
                           (lit ''alias'', JStr (lit ''Anonymous'')),
                           (lit ''color'', JStr (lit ''bg-slate-100 text-slate-900'')),
                           (lit ''sentAt'', JStr (lit ''12:00''))])]"
  from C7_message_broadcast_to_all [OF build_message_hi_verbose, of room] obtain s' acts v where
    r: "onMessage (verbose chat) (Text (lit ''frame'')) (lit ''id-1'') (lit ''12:00'') room = Inr (s', acts)"
    and a: "acts = Stringify (message_event hi)
                    # attempts (verbose chat) (JSON_stringify (verbose chat) (message_event hi))
                        (map_values (connections room))"
    and v: "v = JObj [(lit ''type'', JStr (lit ''message'')),
                        (lit ''message'',
                         JObj [(lit ''id'', JStr (m_id hi)), (lit ''text'', JStr (m_text hi)),
                               (lit ''alias'', m_alias hi), (lit ''color'', m_color hi),
                               (lit ''sentAt'', JStr (m_sentAt hi))])]"
    and mv: "message_event hi = v"
    by blast
  have v': "message_event hi = ?v" unfolding mv v by (simp add: hi_def)
  have s': "s' = pruneHistory (append_history hi room)"
    using r by (simp add: onMessage_accept [OF build_message_hi_verbose])
  have "length (history_list room) < 200" by (simp add: room_def history_list_def)
  from store_hi [OF this] have st: "pruneHistory (append_history hi room) =
      room\<lparr>arrays := [[], [hi]], history := 1\<rparr>"
    by (simp add: room_def history_list_def)
  have t: "send_throws (verbose chat) = (\<lambda>sock payload. False)"
    by (simp add: verbose_def chat_def platform_def)
  have p: "JSON_stringify (verbose chat) ?v =
     lit ''{type:message,message:{id:id-1,text:hi,alias:Anonymous,color:bg-slate-100 text-slate-900,sentAt:12:00}}''"
    unfolding v' [symmetric] by (simp add: verbose_def render_message_hi)
  have "acts = [Stringify ?v,
           Sent 1 (lit ''{type:message,message:{id:id-1,text:hi,alias:Anonymous,color:bg-slate-100 text-slate-900,sentAt:12:00}}''),
           Sent 2 (lit ''{type:message,message:{id:id-1,text:hi,alias:Anonymous,color:bg-slate-100 text-slate-900,sentAt:12:00}}''),
           Sent 3 (lit ''{type:message,message:{id:id-1,text:hi,alias:Anonymous,color:bg-slate-100 text-slate-900,sentAt:12:00}}'')]"
    unfolding a attempts_room [OF t] v' p by simp
  with r s' st show ?thesis by simp
qed
















section \<open>Arrays are never updated in place\<close>

lemma arrays_step: "\<exists>ys. arrays (fst (step e s ev)) = arrays s @ ys"
  by (cases ev)
     (auto simp: step_def GET_def cleanup_def onMessage_def Let_def pruneHistory_def
        append_history_def split: sum.splits option.splits prod.splits)

lemma arrays_run: "\<exists>ys. arrays (fst (run s evs)) = arrays s @ ys"
proof (induction evs arbitrary: s)
  case Nil
  then show ?case by simp
next
  case (Cons p evs)
  obtain e ev where p: "p = (e, ev)" by (cases p)
  obtain ys where 1: "arrays (fst (step e s ev)) = arrays s @ ys"
    using arrays_step by blast
  obtain zs where 2: "arrays (fst (run (fst (step e s ev)) evs)) = arrays (fst (step e s ev)) @ zs"
    using Cons.IH by blast
  have "fst (run s (p # evs)) = fst (run (fst (step e s ev)) evs)"
    unfolding p by (rule run_Cons_fst)
  with 1 2 show ?case by simp
qed

lemma heap_ok_step: "heap_ok s \<Longrightarrow> heap_ok (fst (step e s ev))"
  by (cases ev)
     (auto simp: heap_ok_def step_def GET_def cleanup_def onMessage_def Let_def pruneHistory_def
        append_history_def split: sum.splits option.splits prod.splits)

lemma heap_ok_run: "heap_ok s \<Longrightarrow> heap_ok (fst (run s evs))"
proof (induction evs arbitrary: s)
  case Nil
  then show ?case by simp
next
  case (Cons p evs)
  obtain e ev where p: "p = (e, ev)" by (cases p)
  have "fst (run s (p # evs)) = fst (run (fst (step e s ev)) evs)"
    unfolding p by (rule run_Cons_fst)
  with Cons.IH [OF heap_ok_step [OF Cons.prems, of e ev]] show ?case by simp
qed

lemma heap_ok_init: "heap_ok init"
  by (simp add: heap_ok_def init_def)

text \<open>
  C9. The route never writes into an array: an append and a trim each allocate a new array
  and rebind the variable \<open>history\<close>. So every array that exists in a state \<open>s\<close> holds the
  same messages after any further events; in particular the array that \<open>history\<close> referred
  to in a state reached from the initial one (the array a history event was built from)
  holds, after any later events, the messages it held when it was read.
\<close>

theorem C9_snapshot_immutable:
  "(a < length (arrays s) \<longrightarrow> arrays (fst (run s evs)) ! a = arrays s ! a)
   \<and> arrays (fst (run (fst (run init evs0)) evs)) ! history (fst (run init evs0))
       = history_list (fst (run init evs0))"
proof -
  have frame: "arrays (fst (run t evs)) ! b = arrays t ! b" if "b < length (arrays t)" for t b
  proof -
    obtain ys where "arrays (fst (run t evs)) = arrays t @ ys"
      using arrays_run by blast
    with that show ?thesis by (simp add: nth_append)
  qed
  have "history (fst (run init evs0)) < length (arrays (fst (run init evs0)))"
    using heap_ok_run [OF heap_ok_init, of evs0] by (simp add: heap_ok_def)
  from frame [OF this] frame show ?thesis
    by (simp add: history_list_def)
qed

theorem C9_snapshot_immutable_witness:
  "arrays (fst (run room [(chat, Inbound (Text (lit ''frame'')) (lit ''id-1'') (lit ''12:00''))])) ! 0
     = arrays room ! 0
   \<and> arrays room ! 0 = []
   \<and> arrays (fst (run room [(chat, Inbound (Text (lit ''frame'')) (lit ''id-1'') (lit ''12:00''))]))
     = [[], [hi]]
   \<and> history_list (fst (run room [(chat, Inbound (Text (lit ''frame'')) (lit ''id-1'') (lit ''12:00''))]))
     = [hi]"
proof -
  have "0 < length (arrays room)" by (simp add: room_def)
  with C9_snapshot_immutable
    [of 0 room "[(chat, Inbound (Text (lit ''frame'')) (lit ''id-1'') (lit ''12:00''))]" "[]"]
  have "arrays (fst (run room [(chat, Inbound (Text (lit ''frame'')) (lit ''id-1'') (lit ''12:00''))])) ! 0
     = arrays room ! 0"
    by blast
  moreover have "fst (run room [(chat, Inbound (Text (lit ''frame'')) (lit ''id-1'') (lit ''12:00''))])
      = room\<lparr>arrays := [[], [hi]], history := 1\<rparr>"
    by (simp add: step_def onMessage_hi_room)
  ultimately show ?thesis
    by (simp add: history_list_def room_def)
qed

section \<open>What the server sends\<close>

lemma send_calls_broadcast:
  "set (send_calls (broadcast e data exclude s)) \<subseteq> UNIV \<times> {JSON_stringify e data}"
  by (auto simp: broadcast_def broadcast_loop_attempts send_calls_attempts)

lemma server_event_presence: "server_event (presence_event n)"
  by (simp add: server_event_def presence_event_def event_type_def)

lemma server_event_history: "server_event (history_event ms)"
  by (simp add: server_event_def history_event_def event_type_def)

lemma server_event_message: "server_event (message_event m)"
  by (simp add: server_event_def message_event_def event_type_def)

lemma send_calls_registerPresence:
  "(k, p) \<in> set (send_calls (registerPresence e s)) \<Longrightarrow> \<exists>v. server_event v \<and> p = JSON_stringify e v"
  using send_calls_broadcast [of e "presence_event (length (connections s))" None s]
    server_event_presence
  by (auto simp: registerPresence_def)

lemma send_calls_GET:
  assumes "(k, p) \<in> set (send_calls (snd (snd (GET e req uuid server s))))"
  shows "\<exists>v. server_event v \<and> p = JSON_stringify e v"
proof (cases "upgrade req = None \<or> upgrade req = Some []")
  case True
  with assms show ?thesis by (simp add: GET_refused)
next
  case False
  then obtain h where h: "upgrade req = Some h" "h \<noteq> []" by auto
  let ?s1 = "s\<lparr>connections := map_set (connections s) uuid \<lparr>c_id = uuid, c_socket = server\<rparr>\<rparr>"
  from assms have
    "(k, p) = (server, JSON_stringify e (history_event (history_list s)))
     \<or> (k, p) \<in> set (send_calls (registerPresence e ?s1))"
    by (simp add: GET_accepted [OF h] send_calls_append send_calls_try_send)
  then show ?thesis
  proof
    assume "(k, p) = (server, JSON_stringify e (history_event (history_list s)))"
    then show ?thesis using server_event_history by blast
  next
    assume "(k, p) \<in> set (send_calls (registerPresence e ?s1))"
    then show ?thesis by (rule send_calls_registerPresence)
  qed
qed

lemma send_calls_cleanup:
  "(k, p) \<in> set (send_calls (snd (cleanup e cid s))) \<Longrightarrow>
   \<exists>v. server_event v \<and> p = JSON_stringify e v"
  by (auto simp: cleanup_def Let_def dest: send_calls_registerPresence)

lemma send_calls_onMessage:
  assumes "onMessage e d uuid now s = Inr (s', acts)" and "(k, p) \<in> set (send_calls acts)"
  shows "\<exists>v. server_event v \<and> p = JSON_stringify e v"
proof -
  obtain lg r where b: "build_message e d uuid now = Inr (lg, r)"
    using assms(1) by (cases "build_message e d uuid now") (auto simp: onMessage_def)
  note lg = build_message_log [OF b]
  show ?thesis
  proof (cases r)
    case None
    with assms b lg show ?thesis by (simp add: onMessage_def)
  next
    case (Some m)
    with assms b lg have "p = JSON_stringify e (message_event m)"
      by (auto simp: onMessage_def Let_def broadcast_all send_calls_append send_calls_attempts)
    then show ?thesis using server_event_message by blast
  qed
qed

lemma send_calls_step:
  "(k, p) \<in> set (send_calls (snd (step e s ev))) \<Longrightarrow>
   \<exists>v. server_event v \<and> p = JSON_stringify e v"
  by (cases ev)
     (auto simp: step_def split: sum.splits dest: send_calls_GET send_calls_cleanup
        send_calls_onMessage)

text \<open>
  C10. Whatever the server passes to \<open>socket.send\<close> in any run, from any state, is the
  serialisation of an object whose \<open>type\<close> is \<open>"history"\<close>, \<open>"message"\<close> or \<open>"presence"\<close>,
  made by the \<open>JSON.stringify\<close> of the handler invocation that sends it.
\<close>

theorem C10_only_three_event_types:
  "(k, p) \<in> set (send_calls (snd (run s evs))) \<Longrightarrow>
   \<exists>e v kvs. e \<in> fst ` set evs \<and> p = JSON_stringify e v \<and> v = JObj kvs
     \<and> (event_type v = Some (lit ''history'') \<or> event_type v = Some (lit ''message'')
        \<or> event_type v = Some (lit ''presence''))"
proof (induction evs arbitrary: s)
  case Nil
  then show ?case by simp
next
  case (Cons q evs)
  obtain e ev where q: "q = (e, ev)" by (cases q)
  have "snd (run s (q # evs)) = snd (step e s ev) @ snd (run (fst (step e s ev)) evs)"
    unfolding q by (rule run_Cons_snd)
  with Cons.prems consider
      "(k, p) \<in> set (send_calls (snd (step e s ev)))"
    | "(k, p) \<in> set (send_calls (snd (run (fst (step e s ev)) evs)))"
    by (auto simp: send_calls_append)
  then show ?case
  proof cases
    case 1
    from send_calls_step [OF this] obtain v where "server_event v" "p = JSON_stringify e v"
      by blast
    then show ?thesis
      by (cases v) (auto simp: q server_event_def intro!: exI [of _ e])
  next
    case 2
    from Cons.IH [OF this] show ?thesis by auto
  qed
qed

theorem C10_only_three_event_types_witness:
  "send_calls (snd (run room [(quiet, Connect upgrade_request (lit ''d'') 4)]))
     = [(4, lit ''history''), (1, lit ''presence''), (2, lit ''presence''),
        (3, lit ''presence''), (4, lit ''presence'')]
   \<and> (\<exists>e v kvs. e \<in> fst ` set [(quiet, Connect upgrade_request (lit ''d'') 4)]
         \<and> lit ''history'' = JSON_stringify e v \<and> v = JObj kvs
         \<and> (event_type v = Some (lit ''history'') \<or> event_type v = Some (lit ''message'')
            \<or> event_type v = Some (lit ''presence'')))"
proof -
  have sc: "send_calls (snd (run room [(quiet, Connect upgrade_request (lit ''d'') 4)]))
     = [(4, lit ''history''), (1, lit ''presence''), (2, lit ''presence''),
        (3, lit ''presence''), (4, lit ''presence'')]"
    by (simp add: step_def GET_def Let_def upgrade_request_def quiet_def room_def connection_def
        lit_def history_list_def try_send_def registerPresence_def broadcast_def map_values_def
        excluded_def platform_def history_event_def presence_event_def event_type_def)
  then have "(4, lit ''history'')
      \<in> set (send_calls (snd (run room [(quiet, Connect upgrade_request (lit ''d'') 4)])))"
    by simp
  from C10_only_three_event_types [OF this] sc show ?thesis by blast
qed

section \<open>Presence\<close>

lemma stringified_Inbound:
  "filter is_presence (stringified (snd (step e s (Inbound d uuid now)))) = []"
proof (cases "build_message e d uuid now")
  case (Inl err)
  then show ?thesis by (simp add: step_def onMessage_def)
next
  case (Inr r)
  obtain lg m where r: "r = (lg, m)" by (cases r)
  note lg = build_message_log [OF Inr [unfolded r]]
  show ?thesis
    using Inr r lg
    by (cases m)
       (simp_all add: step_def onMessage_def Let_def stringified_append stringified_broadcast
          is_presence_simps)
qed

lemma presence_of_step:
  "filter is_presence (stringified (snd (step e s ev))) =
     (if registry_call ev then [presence_event (length (connections (fst (step e s ev))))] else [])
   \<and> (registry_call ev \<longrightarrow>
        snd (step e s ev) =
          before_presence e s ev
          @ Stringify (presence_event (length (connections (fst (step e s ev)))))
          # attempts e (JSON_stringify e (presence_event (length (connections (fst (step e s ev))))))
              (map_values (connections (fst (step e s ev)))))"
proof (cases ev)
  case (Connect req uuid server)
  show ?thesis
  proof (cases "upgrade req = None \<or> upgrade req = Some []")
    case True
    then show ?thesis
      using Connect by (auto simp: step_Connect_refused)
  next
    case False
    then obtain h where h: "upgrade req = Some h" "h \<noteq> []" by auto
    show ?thesis
      unfolding Connect step_Connect_accepted [OF h]
      using h
      by (simp add: stringified_append stringified_try_send stringified_attempts
          is_presence_simps registerPresence_all)
  qed
next
  case (Inbound d uuid now)
  then show ?thesis by (simp add: stringified_Inbound)
next
  case (Close cid)
  then show ?thesis
    by (simp add: step_cleanup cleanup_eq stringified_attempts is_presence_simps
        registerPresence_all)
next
  case (Error cid)
  then show ?thesis
    by (simp add: step_cleanup cleanup_eq stringified_attempts is_presence_simps
        registerPresence_all)
qed

text \<open>
  C3, as amended. The handlers that change the registry are an accepted \<open>GET\<close>, which
  registers, and \<open>cleanup\<close> (the close and the error listener), which deregisters. Each of
  them serialises exactly one presence event, as its last step, with \<open>count\<close> the size of
  the registry it leaves, and tries to send it to every registered connection with no
  exclusion. In \<open>cleanup\<close> the broadcast directly follows the deregister; in \<open>GET\<close> the
  attempt to send the history event lies between the register and the broadcast. The presence event is the object
  \<open>{type: "presence", count}\<close>. No
  other handler invocation (a refused request, any inbound data) serialises a presence
  event.
\<close>

theorem C3_presence:
  "filter is_presence (stringified (snd (step e s ev))) =
     (if registry_call ev then [presence_event (length (connections (fst (step e s ev))))] else [])
   \<and> (registry_call ev \<longrightarrow>
        snd (step e s ev) =
          before_presence e s ev
          @ Stringify (presence_event (length (connections (fst (step e s ev)))))
          # attempts e (JSON_stringify e (presence_event (length (connections (fst (step e s ev))))))
              (map_values (connections (fst (step e s ev)))))
   \<and> presence_event n =
       JObj [(lit ''type'', JStr (lit ''presence'')), (lit ''count'', JNum (of_nat n))]"
  using presence_of_step [of e s ev] by (simp add: presence_event_def)

theorem C3_presence_witness:
  "step quiet room (Close (lit ''b'')) =
     (room\<lparr>connections := [connection ''a'' 1, connection ''c'' 3]\<rparr>,
      [Deregister (lit ''b''), Stringify (presence_event 2),
       Sent 1 (lit ''presence''), Sent 3 (lit ''presence'')])"
proof -
  have s: "fst (step quiet room (Close (lit ''b''))) =
      room\<lparr>connections := [connection ''a'' 1, connection ''c'' 3]\<rparr>"
    by (simp add: step_def cleanup_def Let_def room_def connection_def map_delete_def lit_def)
  have "registry_call (Close (lit ''b''))" by simp
  with C3_presence [of quiet room "Close (lit ''b'')"] have
    "snd (step quiet room (Close (lit ''b''))) =
       before_presence quiet room (Close (lit ''b''))
       @ Stringify (presence_event (length (connections (fst (step quiet room (Close (lit ''b'')))))))
       # attempts quiet
           (JSON_stringify quiet
              (presence_event (length (connections (fst (step quiet room (Close (lit ''b''))))))))
           (map_values (connections (fst (step quiet room (Close (lit ''b''))))))"
    by blast
  then have "snd (step quiet room (Close (lit ''b''))) =
      [Deregister (lit ''b''), Stringify (presence_event 2),
       Sent 1 (lit ''presence''), Sent 3 (lit ''presence'')]"
    unfolding s
    by (simp add: attempts_def try_send_def map_values_def connection_def quiet_def platform_def
        presence_event_def event_type_def lit_def)
  with s show ?thesis by (simp add: prod_eq_iff)
qed

text \<open>
  C3 as stated fails: when a fourth connection is accepted into the room, the operation
  that follows the register is the serialisation of the history event, not the presence
  broadcast, which comes only after the history send.
\<close>

theorem C3_presence_counterexample:
  "next_after (Register (lit ''d'')) (snd (snd (GET quiet upgrade_request (lit ''d'') 4 room)))
     = Some (Stringify (history_event []))
   \<and> Stringify (history_event []) \<noteq> Stringify (presence_event 4)
   \<and> stringified (snd (snd (GET quiet upgrade_request (lit ''d'') 4 room)))
       = [history_event [], presence_event 4]"
  by (simp add: GET_def Let_def upgrade_request_def quiet_def room_def connection_def lit_def
      history_list_def try_send_def registerPresence_def broadcast_def map_values_def
      excluded_def platform_def history_event_def presence_event_def event_type_def)

section \<open>Accepting a connection\<close>

lemma GET_trace:
  assumes "upgrade req = Some h" and "h \<noteq> []"
  shows "\<exists>s1 hist.
           GET e req uuid server s =
             (Response 101, s1, Register uuid # Stringify (history_event (history_list s)) # hist
                                @ registerPresence e s1)
         \<and> s1 = s\<lparr>connections := map_set (connections s) uuid \<lparr>c_id = uuid, c_socket = server\<rparr>\<rparr>
         \<and> hist = (if send_throws e server (JSON_stringify e (history_event (history_list s)))
                   then [SendThrew server (JSON_stringify e (history_event (history_list s))),
                         ConsoleError ''Failed to send history'']
                   else [Sent server (JSON_stringify e (history_event (history_list s)))])
         \<and> registerPresence e s1 =
             Stringify (presence_event (length (connections s1)))
             # attempts e (JSON_stringify e (presence_event (length (connections s1))))
                 (map_values (connections s1))
         \<and> fst (GET_in_specified_order e req uuid server s) = Response 101
         \<and> fst (snd (GET_in_specified_order e req uuid server s)) = s1
         \<and> send_calls (snd (snd (GET_in_specified_order e req uuid server s)))
             = send_calls (snd (snd (GET e req uuid server s)))"
  using assms
  by (simp add: GET_accepted [OF assms] try_send_def registerPresence_all
      GET_in_specified_order_def Let_def send_calls_append send_calls_attempts)

text \<open>
  C4, as amended. An accepted \<open>GET\<close> takes the connection id that \<open>crypto.randomUUID()\<close>
  returned, registers the connection under it, then serialises the history event from the
  current store and tries to send it to the new socket (when the send raises, the error
  is logged and the handler goes on), then announces presence to every registered
  connection, the new one included. The history event is the object \<open>{type: "history", messages}\<close> holding
  the five fields of every stored message, the presence event the object
  \<open>{type: "presence", count}\<close>. The response, the resulting state and the sends are
  those of the order history, register, presence.
\<close>

theorem C4_connect_order:
  assumes "upgrade req = Some h" and "h \<noteq> []"
  shows "(\<exists>s1 hist.
           GET e req uuid server s =
             (Response 101, s1, Register uuid # Stringify (history_event (history_list s)) # hist
                                @ registerPresence e s1)
         \<and> s1 = s\<lparr>connections := map_set (connections s) uuid \<lparr>c_id = uuid, c_socket = server\<rparr>\<rparr>
         \<and> hist = (if send_throws e server (JSON_stringify e (history_event (history_list s)))
                   then [SendThrew server (JSON_stringify e (history_event (history_list s))),
                         ConsoleError ''Failed to send history'']
                   else [Sent server (JSON_stringify e (history_event (history_list s)))])
         \<and> registerPresence e s1 =
             Stringify (presence_event (length (connections s1)))
             # attempts e (JSON_stringify e (presence_event (length (connections s1))))
                 (map_values (connections s1))
         \<and> fst (GET_in_specified_order e req uuid server s) = Response 101
         \<and> fst (snd (GET_in_specified_order e req uuid server s)) = s1
         \<and> send_calls (snd (snd (GET_in_specified_order e req uuid server s)))
             = send_calls (snd (snd (GET e req uuid server s))))
         \<and> history_event ms =
             JObj [(lit ''type'', JStr (lit ''history'')), (lit ''messages'', JArr (map message_obj ms))]
         \<and> message_obj m =
             JObj [(lit ''id'', JStr (m_id m)), (lit ''text'', JStr (m_text m)),
                   (lit ''alias'', m_alias m), (lit ''color'', m_color m),
                   (lit ''sentAt'', JStr (m_sentAt m))]
         \<and> presence_event n =
             JObj [(lit ''type'', JStr (lit ''presence'')), (lit ''count'', JNum (of_nat n))]"
proof -
  have "history_event ms =
      JObj [(lit ''type'', JStr (lit ''history'')), (lit ''messages'', JArr (map message_obj ms))]"
    by (simp add: history_event_def)
  moreover have "message_obj m =
      JObj [(lit ''id'', JStr (m_id m)), (lit ''text'', JStr (m_text m)),
            (lit ''alias'', m_alias m), (lit ''color'', m_color m),
            (lit ''sentAt'', JStr (m_sentAt m))]"
    by (simp add: message_obj_def)
  moreover have "presence_event n =
      JObj [(lit ''type'', JStr (lit ''presence'')), (lit ''count'', JNum (of_nat n))]"
    by (simp add: presence_event_def)
  ultimately show ?thesis
    using GET_trace [OF assms, of e uuid server s] by blast
qed

theorem C4_connect_order_witness:
  "GET (platform Map.empty (\<lambda>sock. sock = 4)) upgrade_request (lit ''d'') 4 room
   = (Response 101,
      room\<lparr>connections := [connection ''a'' 1, connection ''b'' 2, connection ''c'' 3,
                            connection ''d'' 4]\<rparr>,
      [Register (lit ''d''), Stringify (history_event []),
       SendThrew 4 (lit ''history''), ConsoleError ''Failed to send history'',
       Stringify (presence_event 4),
       Sent 1 (lit ''presence''), Sent 2 (lit ''presence''), Sent 3 (lit ''presence''),
       SendThrew 4 (lit ''presence''), ConsoleError ''Broadcast failed''])"
proof -
  let ?e = "platform Map.empty (\<lambda>sock. sock = 4)"
  have u: "upgrade upgrade_request = Some (lit ''websocket'')" by (simp add: upgrade_request_def)
  have n: "lit ''websocket'' \<noteq> []" by (simp add: lit_def)
  from C4_connect_order [OF u n, of ?e "lit ''d''" 4 room] obtain s1 hist where
    g: "GET ?e upgrade_request (lit ''d'') 4 room =
          (Response 101, s1, Register (lit ''d'') # Stringify (history_event (history_list room)) # hist
                             @ registerPresence ?e s1)"
    and s1: "s1 = room\<lparr>connections := map_set (connections room) (lit ''d'')
                    \<lparr>c_id = lit ''d'', c_socket = 4\<rparr>\<rparr>"
    and hist: "hist = (if send_throws ?e 4 (JSON_stringify ?e (history_event (history_list room)))
                   then [SendThrew 4 (JSON_stringify ?e (history_event (history_list room))),
                         ConsoleError ''Failed to send history'']
                   else [Sent 4 (JSON_stringify ?e (history_event (history_list room)))])"
    and p: "registerPresence ?e s1 =
             Stringify (presence_event (length (connections s1)))
             # attempts ?e (JSON_stringify ?e (presence_event (length (connections s1))))
                 (map_values (connections s1))"
    by blast
  have c: "connections s1 = [connection ''a'' 1, connection ''b'' 2, connection ''c'' 3,
                            connection ''d'' 4]"
    by (simp add: s1 room_def connection_def lit_def)
  then have s1': "s1 = room\<lparr>connections := [connection ''a'' 1, connection ''b'' 2,
      connection ''c'' 3, connection ''d'' 4]\<rparr>"
    by (simp add: s1)
  have h: "history_list room = []" by (simp add: room_def history_list_def)
  show ?thesis
    unfolding g p hist c h
    by (simp add: s1' attempts_def try_send_def map_values_def connection_def platform_def
        presence_event_def history_event_def event_type_def lit_def)
qed

text \<open>
  C4 as stated fails: in the trace of an accepted \<open>GET\<close> the history send does not precede
  the register; the register precedes the history send.
\<close>

theorem C4_connect_order_counterexample:
  "snd (snd (GET quiet upgrade_request (lit ''d'') 4 room))
   = [Register (lit ''d''), Stringify (history_event []), Sent 4 (lit ''history''),
      Stringify (presence_event 4),
      Sent 1 (lit ''presence''), Sent 2 (lit ''presence''), Sent 3 (lit ''presence''),
      Sent 4 (lit ''presence'')]
   \<and> \<not> precedes (\<lambda>a. a = Sent 4 (lit ''history'')) (\<lambda>a. a = Register (lit ''d''))
        (snd (snd (GET quiet upgrade_request (lit ''d'') 4 room)))
   \<and> precedes (\<lambda>a. a = Register (lit ''d'')) (\<lambda>a. a = Sent 4 (lit ''history''))
        (snd (snd (GET quiet upgrade_request (lit ''d'') 4 room)))"
proof -
  have t: "snd (snd (GET quiet upgrade_request (lit ''d'') 4 room))
   = [Register (lit ''d''), Stringify (history_event []), Sent 4 (lit ''history''),
      Stringify (presence_event 4),
      Sent 1 (lit ''presence''), Sent 2 (lit ''presence''), Sent 3 (lit ''presence''),
      Sent 4 (lit ''presence'')]"
    by (simp add: GET_def Let_def upgrade_request_def quiet_def room_def connection_def lit_def
        history_list_def try_send_def registerPresence_def broadcast_def map_values_def
        excluded_def platform_def history_event_def presence_event_def event_type_def)
  show ?thesis
    unfolding t by (simp add: lit_def)
qed

section \<open>cleanup\<close>

lemma map_delete_idem: "map_delete (map_delete m k) k = map_delete m k"
  by (simp add: map_delete_def)

lemma map_delete_absent: "k \<notin> fst ` set m \<Longrightarrow> map_delete m k = m"
  by (induction m) (auto simp: map_delete_def)

lemma cleanup_twice:
  "cleanup e cid (fst (cleanup e cid s)) = cleanup e cid s
   \<and> (cid \<notin> registered s \<longrightarrow>
        cleanup e cid s =
          (s, Deregister cid
              # Stringify (presence_event (length (connections s)))
              # attempts e (JSON_stringify e (presence_event (length (connections s))))
                  (map_values (connections s))))
   \<and> filter is_presence (stringified (snd (run s [(e, Close cid), (e, Error cid)])))
       = [presence_event (length (map_delete (connections s) cid)),
          presence_event (length (map_delete (connections s) cid))]"
proof -
  have 1: "cleanup e cid (fst (cleanup e cid s)) = cleanup e cid s"
    by (simp add: cleanup_eq map_delete_idem)
  have 2: "cleanup e cid s =
          (s, Deregister cid
              # Stringify (presence_event (length (connections s)))
              # attempts e (JSON_stringify e (presence_event (length (connections s))))
                  (map_values (connections s)))" if "cid \<notin> registered s"
    using that by (simp add: cleanup_eq registered_def map_delete_absent registerPresence_all)
  have 3: "filter is_presence (stringified (snd (run s [(e, Close cid), (e, Error cid)])))
       = [presence_event (length (map_delete (connections s) cid)),
          presence_event (length (map_delete (connections s) cid))]"
    by (simp add: step_cleanup cleanup_eq map_delete_idem stringified_append
        stringified_registerPresence is_presence_simps split: prod.splits)
  from 1 2 3 show ?thesis by blast
qed

text \<open>
  C5, as amended. \<open>cleanup\<close> is idempotent on the state, and it raises no error for an id
  that is not registered; but every invocation broadcasts a presence event. Running it
  again repeats the same broadcast; for an id that is not registered it leaves the state
  as it is and sends the current registry size to every registered connection. So a
  close followed by an error for the same connection serialises two presence events,
  with the same count.
\<close>

theorem C5_cleanup_repeats_presence:
  "cleanup e cid (fst (cleanup e cid s)) = cleanup e cid s
   \<and> (cid \<notin> registered s \<longrightarrow>
        cleanup e cid s =
          (s, Deregister cid
              # Stringify (presence_event (length (connections s)))
              # attempts e (JSON_stringify e (presence_event (length (connections s))))
                  (map_values (connections s))))
   \<and> filter is_presence (stringified (snd (run s [(e, Close cid), (e, Error cid)])))
       = [presence_event (length (map_delete (connections s) cid)),
          presence_event (length (map_delete (connections s) cid))]
   \<and> presence_event n =
       JObj [(lit ''type'', JStr (lit ''presence'')), (lit ''count'', JNum (of_nat n))]"
  using cleanup_twice [of e cid s] by (simp add: presence_event_def)

theorem C5_cleanup_repeats_presence_witness:
  "lit ''z'' \<notin> registered room
   \<and> cleanup quiet (lit ''z'') room =
       (room, [Deregister (lit ''z''), Stringify (presence_event 3),
               Sent 1 (lit ''presence''), Sent 2 (lit ''presence''), Sent 3 (lit ''presence'')])"
proof -
  have a: "lit ''z'' \<notin> registered room"
    by (simp add: registered_def room_def connection_def lit_def)
  have "length (connections room) = 3" by (simp add: room_def)
  with C5_cleanup_repeats_presence [of quiet "lit ''z''" room] a
  show ?thesis
    by (simp add: attempts_def try_send_def map_values_def room_def connection_def quiet_def
        platform_def presence_event_def event_type_def lit_def)
qed

text \<open>
  C5 as stated fails: when both the close and the error listener run for connection
  \<open>a\<close>, the second run finds \<open>a\<close> no longer registered and still sends a presence event
  to the two remaining connections, so one disconnect yields two presence broadcasts.
\<close>

theorem C5_double_disconnect_counterexample:
  "run room [(quiet, Close (lit ''a'')), (quiet, Error (lit ''a''))]
   = (room\<lparr>connections := [connection ''b'' 2, connection ''c'' 3]\<rparr>,
      [Deregister (lit ''a''), Stringify (presence_event 2),
       Sent 2 (lit ''presence''), Sent 3 (lit ''presence''),
       Deregister (lit ''a''), Stringify (presence_event 2),
       Sent 2 (lit ''presence''), Sent 3 (lit ''presence'')])
   \<and> lit ''a'' \<notin> registered (room\<lparr>connections := [connection ''b'' 2, connection ''c'' 3]\<rparr>)
   \<and> send_calls (snd (cleanup quiet (lit ''a'')
        (room\<lparr>connections := [connection ''b'' 2, connection ''c'' 3]\<rparr>)))
       = [(2, lit ''presence''), (3, lit ''presence'')]"
  by (simp add: step_def cleanup_def Let_def room_def connection_def map_delete_def lit_def
      registerPresence_def broadcast_def map_values_def excluded_def try_send_def quiet_def
      platform_def presence_event_def event_type_def registered_def)

section \<open>Inbound data that is not a chat message\<close>

lemma discard_not_text: "onMessage e Binary uuid now s = Inr (s, [])"
  by (simp add: onMessage_def build_message_def)

lemma discard_bad_json:
  "JSON_parse e d = None \<Longrightarrow> onMessage e (Text d) uuid now s = Inr (s, [ConsoleError ''Invalid payload''])"
  by (simp add: onMessage_def build_message_def)

lemma discard_wrong_type:
  "JSON_parse e d = Some v \<Longrightarrow> v \<noteq> JNull \<Longrightarrow>
   get_prop v (lit ''type'') \<noteq> Inr (Some (JStr (lit ''message''))) \<Longrightarrow>
   onMessage e (Text d) uuid now s = Inr (s, [])"
  by (cases v) (auto simp: onMessage_def build_message_def)

lemma discard_no_text:
  "JSON_parse e d = Some (JObj kvs) \<Longrightarrow>
   map_of kvs (lit ''text'') = None \<or> map_of kvs (lit ''text'') = Some JNull
     \<or> (\<exists>t. map_of kvs (lit ''text'') = Some (JStr t) \<and> trim t = []) \<Longrightarrow>
   onMessage e (Text d) uuid now s = Inr (s, [])"
  by (cases "map_of kvs (lit ''type'') = Some (JStr (lit ''message''))")
     (auto simp: onMessage_def build_message_def)

text \<open>
  C6 fails on one payload. Data that does not parse, a parsed value other than \<open>null\<close> whose
  \<open>type\<close> is not \<open>"message"\<close>, and an object whose \<open>text\<close> is absent or empty after trimming
  are discarded without a send and without a change of state (the four lemmas above).
  But the frame \<open>null\<close> parses, to \<open>null\<close>, and reading \<open>data.type\<close> then raises a
  TypeError that leaves the listener; the state is unchanged and nothing is sent.
\<close>

theorem C6_null_payload_throws:
  "JSON_parse e d = Some JNull \<Longrightarrow>
   onMessage e (Text d) uuid now s = Inl TypeError
   \<and> step e s (Inbound (Text d) uuid now) = (s, [Uncaught TypeError])"
  by (simp add: step_def onMessage_def build_message_def)

theorem C6_null_payload_throws_witness:
  "onMessage (platform (\<lambda>d. if d = lit ''null'' then Some JNull else None) (\<lambda>sock. False))
     (Text (lit ''null'')) (lit ''id-1'') (lit ''12:00'') room = Inl TypeError
   \<and> step (platform (\<lambda>d. if d = lit ''null'' then Some JNull else None) (\<lambda>sock. False)) room
       (Inbound (Text (lit ''null'')) (lit ''id-1'') (lit ''12:00'')) = (room, [Uncaught TypeError])"
proof -
  have "JSON_parse (platform (\<lambda>d. if d = lit ''null'' then Some JNull else None) (\<lambda>sock. False))
          (lit ''null'') = Some JNull"
    by (simp add: platform_def)
  from C6_null_payload_throws [OF this] show ?thesis by blast
qed

end
